theory Spec2Isabelle
  imports Complex_Main
begin

section \<open>Kinetics simulator: data model\<close>

text \<open>
  The embedding follows the second (distance-budget cooldown) version of \<open>src/index.ts\<close>,
  the one \<open>src/index.js\<close> is compiled from. A JavaScript \<open>number\<close> is modelled as an
  exact \<open>real\<close>: rounding, infinities and NaN are outside the model. Objects that are
  shared and mutated (particles) live in an explicit store indexed by references; arrays
  of particles are lists of references.
\<close>

record Vector =
  x :: real
  y :: real

text \<open>
  \<open>type molFormula\<close>: a species with its stoichiometric coefficient. The source stores
  the coefficient as a \<open>number\<close>; every rule it builds uses a positive integer literal, so
  the coefficient is a \<open>nat\<close> here. Its formula field is written \<open>molFormula.formula\<close>;
  the unqualified \<open>formula\<close> is the particle's.
\<close>

record molFormula =
  formula :: string
  molCoeff :: nat

datatype ParticleState = Active | Cooldown | Removed

record Particle =
  formula :: string
  color :: string
  radius :: real
  pos :: Vector
  vel :: Vector
  temperature :: real
  state :: ParticleState
  cooldownDist :: real

record dimensions =
  height :: real
  width :: real

subsection \<open>Vector\<close>

definition getCopy :: "Vector \<Rightarrow> Vector" where
  "getCopy v = \<lparr>x = x v, y = y v\<rparr>"

definition getMagnitude :: "Vector \<Rightarrow> real" where
  "getMagnitude v = sqrt ((x v)\<^sup>2 + (y v)\<^sup>2)"

definition getScaled :: "Vector \<Rightarrow> real \<Rightarrow> Vector" where
  "getScaled v scaler = \<lparr>x = scaler * x v, y = scaler * y v\<rparr>"

definition getNeg :: "Vector \<Rightarrow> Vector" where
  "getNeg v = getScaled v (- 1)"

definition getAddition :: "Vector \<Rightarrow> Vector \<Rightarrow> Vector" where
  "getAddition v other = \<lparr>x = x v + x other, y = y v + y other\<rparr>"

definition getDifference :: "Vector \<Rightarrow> Vector \<Rightarrow> Vector" where
  "getDifference v other = \<lparr>x = x other - x v, y = y other - y v\<rparr>"

definition getNormalized :: "Vector \<Rightarrow> Vector" where
  "getNormalized v =
     (let mag = getMagnitude v in
      if mag = 0 then \<lparr>x = 0, y = 0\<rparr>
      else \<lparr>x = x v / mag, y = y v / mag\<rparr>)"

definition getRotated :: "Vector \<Rightarrow> real \<Rightarrow> Vector" where
  "getRotated v theta =
     \<lparr>x = x v * cos theta - y v * sin theta,
      y = x v * sin theta + y v * cos theta\<rparr>"

subsection \<open>Particle\<close>

text \<open>\<open>Particle.changeTemperature\<close>: returns early when the current temperature is 0.\<close>

definition changeTemperature :: "Particle \<Rightarrow> real \<Rightarrow> Particle" where
  "changeTemperature p newTemp =
     (if temperature p = 0 then p
      else
        let speedScaler = getMagnitude (vel p) / temperature p;
            newVel = getScaled (getNormalized (vel p)) (speedScaler * newTemp)
        in p\<lparr>vel := newVel, temperature := newTemp\<rparr>)"

text \<open>
  The same two functions with every division made partial: \<open>divChecked\<close> has no value when
  the divisor is 0 (where JavaScript would yield an infinity or NaN), and a call has a value
  only if every division it performs has one. The divisions are those of the source:
  \<open>this.x / mag\<close> and \<open>this.y / mag\<close> in \<open>getNormalized\<close>, and
  \<open>this.vel.getMagnitude() / this.temperature\<close> in \<open>changeTemperature\<close>.
\<close>

definition divChecked :: "real \<Rightarrow> real \<Rightarrow> real option" where
  "divChecked a b = (if b = 0 then None else Some (a / b))"

definition getNormalizedChecked :: "Vector \<Rightarrow> Vector option" where
  "getNormalizedChecked v =
     (let mag = getMagnitude v in
      if mag = 0 then Some \<lparr>x = 0, y = 0\<rparr>
      else case divChecked (x v) mag of
             None \<Rightarrow> None
           | Some nx \<Rightarrow>
               (case divChecked (y v) mag of
                  None \<Rightarrow> None
                | Some ny \<Rightarrow> Some \<lparr>x = nx, y = ny\<rparr>))"

definition changeTemperatureChecked :: "Particle \<Rightarrow> real \<Rightarrow> Particle option" where
  "changeTemperatureChecked p newTemp =
     (if temperature p = 0 then Some p
      else case divChecked (getMagnitude (vel p)) (temperature p) of
             None \<Rightarrow> None
           | Some speedScaler \<Rightarrow>
               (case getNormalizedChecked (vel p) of
                  None \<Rightarrow> None
                | Some n \<Rightarrow>
                    Some (p\<lparr>vel := getScaled n (speedScaler * newTemp),
                            temperature := newTemp\<rparr>)))"

text \<open>
  \<open>Particle.update\<close>. The four boundary tests are four consecutive \<open>if\<close> statements on
  the same two local vectors, so each test sees the assignments of the tests before it.
\<close>

definition update :: "dimensions \<Rightarrow> Particle \<Rightarrow> Particle" where
  "update canvas p =
     (let newVel0 = getCopy (vel p);
          newPos0 = getAddition (pos p) (vel p);
          (newPos1, newVel1) =
            (if x newPos0 - radius p < 0
             then (newPos0\<lparr>x := radius p\<rparr>, newVel0\<lparr>x := x newVel0 * (- 1)\<rparr>)
             else (newPos0, newVel0));
          (newPos2, newVel2) =
            (if x newPos1 + radius p > width canvas
             then (newPos1\<lparr>x := width canvas - radius p\<rparr>, newVel1\<lparr>x := x newVel1 * (- 1)\<rparr>)
             else (newPos1, newVel1));
          (newPos3, newVel3) =
            (if y newPos2 - radius p < 0
             then (newPos2\<lparr>y := radius p\<rparr>, newVel2\<lparr>y := y newVel2 * (- 1)\<rparr>)
             else (newPos2, newVel2));
          (newPos4, newVel4) =
            (if y newPos3 + radius p > height canvas
             then (newPos3\<lparr>y := height canvas - radius p\<rparr>, newVel3\<lparr>y := y newVel3 * (- 1)\<rparr>)
             else (newPos3, newVel3));
          p1 = p\<lparr>pos := newPos4, vel := newVel4\<rparr>;
          p2 = (if cooldownDist p1 > 0
                then p1\<lparr>cooldownDist := cooldownDist p1 - getMagnitude (vel p1)\<rparr>
                else p1)
      in if cooldownDist p2 \<le> 0 \<or> state p2 = Active
         then p2\<lparr>cooldownDist := 0, state := Active\<rparr>
         else p2)"

subsection \<open>Reaction rules and the simulation state\<close>

record Reaction =
  name :: string
  reactants :: "molFormula list"
  products :: "molFormula list"
  reversible :: bool

text \<open>
  The module-level variables of the source, together with what the JavaScript runtime
  keeps implicitly: the store of particle objects (\<open>heap\<close>, with \<open>nextRef\<close> the next
  unused reference, so that \<open>new Particle\<close> always yields a reference never seen before),
  and the sequence of values that successive calls of \<open>Math.random()\<close> return (\<open>randoms\<close>,
  with \<open>randomCalls\<close> the number of calls made so far). Vectors are never mutated after
  they are stored in a particle, so they are plain values.
\<close>

record Sim =
  heap :: "nat \<Rightarrow> Particle"
  nextRef :: nat
  randoms :: "nat \<Rightarrow> real"
  randomCalls :: nat
  canvas :: dimensions
  particleList :: "nat list"
  particleCreationQueue :: "nat list"
  reactionList :: "Reaction list"
  containerPaused :: bool
  containerTemperature :: real

definition RADIUS :: real where
  "RADIUS = 10"

definition COOLDOWN_DIST :: real where
  "COOLDOWN_DIST = 2 * RADIUS"

definition MAX_SPEED_SCALER :: real where
  "MAX_SPEED_SCALER = 0.5"

definition formulaColorMap :: "(string \<times> string) list" where
  "formulaColorMap = [(''A'', ''blue''), (''B'', ''red''), (''C'', ''orange'')]"

subsection \<open>Math and simulation functions\<close>

definition getDist :: "Vector \<Rightarrow> Vector \<Rightarrow> real" where
  "getDist pos1 pos2 = sqrt ((x pos1 - x pos2)\<^sup>2 + (y pos1 - y pos2)\<^sup>2)"

definition getRandFloat :: "real \<Rightarrow> real \<Rightarrow> Sim \<Rightarrow> real \<times> Sim" where
  "getRandFloat lo hi s =
     (randoms s (randomCalls s) * (hi - lo) + lo, s\<lparr>randomCalls := Suc (randomCalls s)\<rparr>)"

text \<open>
  \<open>getParticleColor\<close> looks the formula up in \<open>formulaColorMap\<close>; keys that a JavaScript
  object inherits from its prototype are not modelled.
\<close>

definition getParticleColor :: "string \<Rightarrow> string" where
  "getParticleColor f =
     (case map_of formulaColorMap f of Some c \<Rightarrow> c | None \<Rightarrow> ''black'')"

definition createParticle :: "string \<Rightarrow> Vector \<Rightarrow> real \<Rightarrow> real \<Rightarrow> Sim \<Rightarrow> nat \<times> Sim" where
  "createParticle f position temp cooldown s =
     (let speedVec = \<lparr>x = temp, y = 0\<rparr>;
          (speedScaler, s1) = getRandFloat (1 - MAX_SPEED_SCALER) (1 + MAX_SPEED_SCALER) s;
          (angle, s2) = getRandFloat 0 (2 * pi) s1;
          particle = \<lparr>formula = f, color = getParticleColor f, radius = RADIUS,
                      pos = position, vel = getRotated (getScaled speedVec speedScaler) angle,
                      temperature = temp, state = Active, cooldownDist = 0\<rparr>;
          particle' = (if cooldown \<noteq> 0
                       then particle\<lparr>state := Cooldown, cooldownDist := cooldown\<rparr>
                       else particle);
          r = nextRef s2
      in (r, s2\<lparr>heap := (heap s2)(r := particle'), nextRef := Suc r\<rparr>))"

fun removeParticles :: "nat list \<Rightarrow> (nat \<Rightarrow> Particle) \<Rightarrow> (nat \<Rightarrow> Particle)" where
  "removeParticles [] h = h"
| "removeParticles (r # rs) h = removeParticles rs (h(r := (h r)\<lparr>state := Removed\<rparr>))"

definition getAvgPos :: "(nat \<Rightarrow> Particle) \<Rightarrow> nat list \<Rightarrow> Vector" where
  "getAvgPos h particles =
     (if length particles = 0 then \<lparr>x = 0, y = 0\<rparr>
      else
        let totalX = foldl (\<lambda>t r. t + x (pos (h r))) 0 particles;
            totalY = foldl (\<lambda>t r. t + y (pos (h r))) 0 particles
        in \<lparr>x = totalX / real (length particles), y = totalY / real (length particles)\<rparr>)"

subsection \<open>Reaction matching\<close>

text \<open>
  The loop shared by \<open>getFwdConsumedParticles\<close> and \<open>getRevConsumedParticles\<close>, which differ
  only in the side of the rule they iterate over. \<open>intersecting\<close> is the caller's array:
  \<open>splice(0, minAmount)\<close> removes its first \<open>minAmount\<close> elements in place, so the array as the
  call leaves it is returned next to the result. \<open>matchingParticles\<close> is used for its length
  only.
\<close>

fun consumeParticles ::
  "(nat \<Rightarrow> Particle) \<Rightarrow> molFormula list \<Rightarrow> nat list \<Rightarrow> nat list \<Rightarrow> nat list option \<times> nat list" where
  "consumeParticles h [] intersecting consumed = (Some consumed, intersecting)"
| "consumeParticles h (m # ms) intersecting consumed =
     (let matchingParticles =
            filter (\<lambda>r. state (h r) = Active \<and> formula (h r) = molFormula.formula m) intersecting
      in if length matchingParticles < molCoeff m then (None, intersecting)
         else consumeParticles h ms (drop (molCoeff m) intersecting)
                (consumed @ take (molCoeff m) intersecting))"

definition getFwdConsumedParticles ::
  "Reaction \<Rightarrow> (nat \<Rightarrow> Particle) \<Rightarrow> nat list \<Rightarrow> nat list option \<times> nat list" where
  "getFwdConsumedParticles rxn h intersecting = consumeParticles h (reactants rxn) intersecting []"

definition getRevConsumedParticles ::
  "Reaction \<Rightarrow> (nat \<Rightarrow> Particle) \<Rightarrow> nat list \<Rightarrow> nat list option \<times> nat list" where
  "getRevConsumedParticles rxn h intersecting = consumeParticles h (products rxn) intersecting []"

text \<open>The inner \<open>for (let i = 0; i < coeff; i++)\<close> loop, then the loop over one side.\<close>

fun createParticles :: "nat \<Rightarrow> string \<Rightarrow> Vector \<Rightarrow> real \<Rightarrow> Sim \<Rightarrow> nat list \<times> Sim" where
  "createParticles 0 f loc temp s = ([], s)"
| "createParticles (Suc n) f loc temp s =
     (let (r, s1) = createParticle f loc temp COOLDOWN_DIST s;
          (rs, s2) = createParticles n f loc temp s1
      in (r # rs, s2))"

fun produceParticles :: "molFormula list \<Rightarrow> Vector \<Rightarrow> real \<Rightarrow> Sim \<Rightarrow> nat list \<times> Sim" where
  "produceParticles [] loc temp s = ([], s)"
| "produceParticles (m # ms) loc temp s =
     (let (rs1, s1) = createParticles (molCoeff m) (molFormula.formula m) loc temp s;
          (rs2, s2) = produceParticles ms loc temp s1
      in (rs1 @ rs2, s2))"

definition getFwdProducedParticles :: "Reaction \<Rightarrow> Vector \<Rightarrow> real \<Rightarrow> Sim \<Rightarrow> nat list \<times> Sim" where
  "getFwdProducedParticles rxn loc temp s = produceParticles (products rxn) loc temp s"

definition getRevProducedParticles :: "Reaction \<Rightarrow> Vector \<Rightarrow> real \<Rightarrow> Sim \<Rightarrow> nat list \<times> Sim" where
  "getRevProducedParticles rxn loc temp s = produceParticles (reactants rxn) loc temp s"

text \<open>
  \<open>Reaction.attemptReaction\<close>. It returns the success flag, the caller's candidate array as
  the call leaves it, and the new state. The source passes the creation queue and the
  temperature as arguments; \<open>updateFrame\<close>, its only caller, passes the global queue. The
  reverse match is computed before the \<open>reversible\<close> flag is looked at.
\<close>

definition attemptReaction :: "Reaction \<Rightarrow> nat list \<Rightarrow> real \<Rightarrow> Sim \<Rightarrow> bool \<times> nat list \<times> Sim" where
  "attemptReaction rxn intersecting temp s =
     (case getFwdConsumedParticles rxn (heap s) intersecting of
        (Some fwdConsumed, intersecting1) \<Rightarrow>
          (let s1 = s\<lparr>heap := removeParticles fwdConsumed (heap s)\<rparr>;
               (produced, s2) = getFwdProducedParticles rxn (getAvgPos (heap s1) fwdConsumed) temp s1
           in (True, intersecting1,
               s2\<lparr>particleCreationQueue := particleCreationQueue s2 @ produced\<rparr>))
      | (None, intersecting1) \<Rightarrow>
          (case getRevConsumedParticles rxn (heap s) intersecting1 of
             (Some revConsumed, intersecting2) \<Rightarrow>
               (if reversible rxn then
                  (let s1 = s\<lparr>heap := removeParticles revConsumed (heap s)\<rparr>;
                       (produced, s2) =
                         getRevProducedParticles rxn (getAvgPos (heap s1) revConsumed) temp s1
                   in (True, intersecting2,
                       s2\<lparr>particleCreationQueue := particleCreationQueue s2 @ produced\<rparr>))
                else (False, intersecting2, s))
           | (None, intersecting2) \<Rightarrow> (False, intersecting2, s)))"

subsection \<open>The tick driver\<close>

text \<open>
  The sweep \<open>while (i < particleList.length)\<close>: a removed particle is spliced out and the
  index stays; any other particle is updated and stays in the list.
\<close>

fun sweep :: "dimensions \<Rightarrow> nat list \<Rightarrow> (nat \<Rightarrow> Particle) \<Rightarrow> nat list \<times> (nat \<Rightarrow> Particle)" where
  "sweep cv [] h = ([], h)"
| "sweep cv (r # rs) h =
     (if state (h r) = Removed then sweep cv rs h
      else (let (rs', h') = sweep cv rs (h(r := update cv (h r))) in (r # rs', h')))"

text \<open>The inner loop over \<open>particle2\<close> that builds \<open>availableParticles\<close> for one \<open>particle1\<close>.\<close>

definition availableParticles :: "(nat \<Rightarrow> Particle) \<Rightarrow> nat list \<Rightarrow> nat \<Rightarrow> nat list" where
  "availableParticles h plist particle1 =
     particle1 #
     filter (\<lambda>particle2. particle2 \<noteq> particle1 \<and> state (h particle2) = Active \<and>
               getDist (pos (h particle1)) (pos (h particle2))
                 < radius (h particle1) + radius (h particle2)) plist"

text \<open>
  The loop over \<open>reactionList\<close> with its \<open>break\<close>: every rule is handed the same array, as the
  rules before it left it.
\<close>

fun tryReactions :: "Reaction list \<Rightarrow> nat list \<Rightarrow> Sim \<Rightarrow> Sim" where
  "tryReactions [] available s = s"
| "tryReactions (rxn # rxns) available s =
     (case attemptReaction rxn available (containerTemperature s) s of
        (rxnSuccessful, available', s') \<Rightarrow>
          if rxnSuccessful then s' else tryReactions rxns available' s')"

fun collisionLoop :: "nat list \<Rightarrow> Sim \<Rightarrow> Sim" where
  "collisionLoop [] s = s"
| "collisionLoop (particle1 # rest) s =
     (if state (heap s particle1) \<noteq> Active then collisionLoop rest s
      else collisionLoop rest
             (tryReactions (reactionList s)
                (availableParticles (heap s) (particleList s) particle1) s))"

definition flushQueue :: "Sim \<Rightarrow> Sim" where
  "flushQueue s = s\<lparr>particleList := particleList s @ particleCreationQueue s,
                    particleCreationQueue := []\<rparr>"

definition sweepParticles :: "Sim \<Rightarrow> Sim" where
  "sweepParticles s =
     (let (l, h) = sweep (canvas s) (particleList s) (heap s)
      in s\<lparr>particleList := l, heap := h\<rparr>)"

definition checkCollisions :: "Sim \<Rightarrow> Sim" where
  "checkCollisions s = collisionLoop (particleList s) s"

text \<open>\<open>updateFrame\<close>; the final \<open>drawFrame()\<close> only reads the state.\<close>

definition updateFrame :: "Sim \<Rightarrow> Sim" where
  "updateFrame s =
     (if containerPaused s then s
      else checkCollisions (sweepParticles (flushQueue s)))"


subsection \<open>The stoichiometric condition of the specification\<close>

text \<open>
  The specification's condition for one direction of a rule on a candidate list, in its own
  words: every required species has at least coefficient-many candidates that are Active
  and carry its formula. It is a property of the rule and the list only.
\<close>

definition stoichSatisfiable :: "(nat \<Rightarrow> Particle) \<Rightarrow> molFormula list \<Rightarrow> nat list \<Rightarrow> bool" where
  "stoichSatisfiable h side candidates =
     list_all (\<lambda>m. molCoeff m \<le> length (filter (\<lambda>r. state (h r) = Active \<and>
                      formula (h r) = molFormula.formula m) candidates)) side"

subsection \<open>Concrete inputs\<close>

text \<open>A particle at rest, as \<open>new Particle\<close> builds it for the given species and place.\<close>

definition particleAt :: "string \<Rightarrow> real \<Rightarrow> real \<Rightarrow> Particle" where
  "particleAt f px py = \<lparr>formula = f, color = getParticleColor f, radius = RADIUS,
      pos = \<lparr>x = px, y = py\<rparr>, vel = \<lparr>x = 0, y = 0\<rparr>,
      temperature = 2, state = Active, cooldownDist = 0\<rparr>"

text \<open>The rule the source installs, \<open>2A \<rightleftharpoons> 2B\<close>, and two further rules.\<close>

definition rxn1 :: Reaction where
  "rxn1 = \<lparr>name = ''rxn1'',
     reactants = [\<lparr>molFormula.formula = ''A'', molCoeff = 2\<rparr>],
     products = [\<lparr>molFormula.formula = ''B'', molCoeff = 2\<rparr>], reversible = True\<rparr>"

definition rxnABC :: Reaction where
  "rxnABC = \<lparr>name = ''rxn2'',
     reactants = [\<lparr>molFormula.formula = ''A'', molCoeff = 1\<rparr>,
                  \<lparr>molFormula.formula = ''B'', molCoeff = 1\<rparr>],
     products = [\<lparr>molFormula.formula = ''C'', molCoeff = 1\<rparr>], reversible = True\<rparr>"

definition rxnIrr :: Reaction where
  "rxnIrr = \<lparr>name = ''rxn3'',
     reactants = [\<lparr>molFormula.formula = ''A'', molCoeff = 1\<rparr>],
     products = [\<lparr>molFormula.formula = ''B'', molCoeff = 1\<rparr>], reversible = False\<rparr>"

text \<open>
  A store of Active particles at one place: references 1 and 2 are \<open>B\<close>, reference 4 is
  \<open>C\<close>, every other reference (0 and 3 are used) is \<open>A\<close>.
\<close>

definition mixedHeap :: "nat \<Rightarrow> Particle" where
  "mixedHeap = (\<lambda>r. particleAt ''A'' 400 400)
     (1 := particleAt ''B'' 400 400, 2 := particleAt ''B'' 400 400,
      4 := particleAt ''C'' 400 400)"

definition mixedSim :: Sim where
  "mixedSim = \<lparr>heap = mixedHeap, nextRef = 5, randoms = (\<lambda>n. 0), randomCalls = 0,
     canvas = \<lparr>height = 800, width = 800\<rparr>, particleList = [0, 1, 2, 3, 4],
     particleCreationQueue = [], reactionList = [rxn1], containerPaused = False,
     containerTemperature = 2\<rparr>"

definition pausedSim :: Sim where
  "pausedSim = mixedSim\<lparr>containerPaused := True\<rparr>"

text \<open>A container narrower than a particle, and a particle moving left inside it.\<close>

definition narrowCanvas :: dimensions where
  "narrowCanvas = \<lparr>height = 100, width = 10\<rparr>"

definition wideParticle :: Particle where
  "wideParticle = \<lparr>formula = ''A'', color = ''blue'', radius = 10,
      pos = \<lparr>x = 5, y = 50\<rparr>, vel = \<lparr>x = - 10, y = 0\<rparr>,
      temperature = 10, state = Active, cooldownDist = 0\<rparr>"

text \<open>An ordinary container, and a particle about to cross its top left corner.\<close>

definition bigCanvas :: dimensions where
  "bigCanvas = \<lparr>height = 800, width = 800\<rparr>"

definition cornerParticle :: Particle where
  "cornerParticle = \<lparr>formula = ''A'', color = ''blue'', radius = 10,
      pos = \<lparr>x = 12, y = 11\<rparr>, vel = \<lparr>x = - 3, y = - 4\<rparr>,
      temperature = 5, state = Active, cooldownDist = 0\<rparr>"

definition warmParticle :: Particle where
  "warmParticle = \<lparr>formula = ''A'', color = ''blue'', radius = 10,
      pos = \<lparr>x = 400, y = 400\<rparr>, vel = \<lparr>x = 2, y = 0\<rparr>,
      temperature = 2, state = Active, cooldownDist = 0\<rparr>"

definition removedParticle :: Particle where
  "removedParticle = (particleAt ''A'' 400 400)\<lparr>state := Removed\<rparr>"

text \<open>Two \<open>A\<close> particles at rest at the same place, under the rule \<open>2A \<rightleftharpoons> 2B\<close>.\<close>

definition twoASim :: Sim where
  "twoASim = \<lparr>heap = (\<lambda>r. particleAt ''A'' 400 400), nextRef = 2, randoms = (\<lambda>n. 0),
     randomCalls = 0, canvas = bigCanvas, particleList = [0, 1],
     particleCreationQueue = [], reactionList = [rxn1], containerPaused = False,
     containerTemperature = 2\<rparr>"

text \<open>The same two particles, the second one still waiting in the creation queue.\<close>

definition queuedSim :: Sim where
  "queuedSim = twoASim\<lparr>particleList := [0], particleCreationQueue := [1]\<rparr>"

text \<open>
  The same two particles at temperature 20, flying apart along the horizontal axis at
  speed 20 each.
\<close>

definition movingA :: "real \<Rightarrow> Particle" where
  "movingA speed =
     (particleAt ''A'' 400 400)\<lparr>vel := \<lparr>x = speed, y = 0\<rparr>, temperature := 20\<rparr>"

definition fastSim :: Sim where
  "fastSim = twoASim\<lparr>heap := (\<lambda>r. movingA 20)(1 := movingA (- 20)),
                      containerTemperature := 20\<rparr>"

subsection \<open>Invariants of the collision phase\<close>

text \<open>
  \<open>grows s s' rs\<close>: from \<open>s\<close> to \<open>s'\<close> only new particles were allocated; \<open>rs\<close> are among them
  and are as \<open>createParticle\<close> makes a product: in Cooldown with the full budget.
\<close>

definition grows :: "Sim \<Rightarrow> Sim \<Rightarrow> nat list \<Rightarrow> bool" where
  "grows s s' rs \<longleftrightarrow>
     particleList s' = particleList s \<and>
     particleCreationQueue s' = particleCreationQueue s \<and>
     reactionList s' = reactionList s \<and>
     containerTemperature s' = containerTemperature s \<and>
     nextRef s \<le> nextRef s' \<and>
     (\<forall>r. r < nextRef s \<longrightarrow> heap s' r = heap s r) \<and>
     (\<forall>r\<in>set rs. nextRef s \<le> r \<and> r < nextRef s' \<and>
        state (heap s' r) = Cooldown \<and> cooldownDist (heap s' r) = COOLDOWN_DIST)"

text \<open>
  \<open>tickInv n0 s\<close>: during the collision phase of a tick that started with \<open>n0\<close> as the next
  unused reference, the live collection holds older references only, and the queue holds
  references allocated since, each still as it was created.
\<close>

definition tickInv :: "nat \<Rightarrow> Sim \<Rightarrow> bool" where
  "tickInv n0 s \<longleftrightarrow>
     n0 \<le> nextRef s \<and>
     (\<forall>r\<in>set (particleList s). r < n0) \<and>
     (\<forall>r\<in>set (particleCreationQueue s). n0 \<le> r \<and> r < nextRef s \<and>
        state (heap s r) = Cooldown \<and> cooldownDist (heap s r) = COOLDOWN_DIST)"

section \<open>Vector and particle kinematics\<close>

lemma getMagnitude_nonneg: "0 \<le> getMagnitude v"
  by (simp add: getMagnitude_def)

lemma getMagnitude_getScaled: "getMagnitude (getScaled v c) = \<bar>c\<bar> * getMagnitude v"
  by (simp add: getMagnitude_def getScaled_def power_mult_distrib real_sqrt_mult
      flip: distrib_left)

lemma getMagnitude_getNormalized:
  "getMagnitude v \<noteq> 0 \<Longrightarrow> getMagnitude (getNormalized v) = 1"
  by (simp add: getMagnitude_def getNormalized_def Let_def power_divide real_sqrt_divide
      flip: add_divide_distrib)

lemma getMagnitude_getNormalized_zero:
  "getMagnitude v = 0 \<Longrightarrow> getMagnitude (getNormalized v) = 0"
  by (simp add: getNormalized_def Let_def getMagnitude_def)

lemma getMagnitude_zero: "getMagnitude v = 0 \<Longrightarrow> x v = 0 \<and> y v = 0"
  by (simp add: getMagnitude_def sum_power2_eq_zero_iff)

lemma getNormalizedChecked_total: "getNormalizedChecked v = Some (getNormalized v)"
  by (simp add: getNormalizedChecked_def getNormalized_def divChecked_def Let_def)

lemma changeTemperatureChecked_total:
  "changeTemperatureChecked p newTemp = Some (changeTemperature p newTemp)"
  by (simp add: changeTemperatureChecked_def changeTemperature_def divChecked_def
      getNormalizedChecked_total Let_def)

lemma changeTemperature_vel:
  assumes "temperature p \<noteq> 0"
  shows "vel (changeTemperature p newTemp) = getScaled (vel p) (newTemp / temperature p)"
proof (cases "getMagnitude (vel p) = 0")
  case True
  with getMagnitude_zero [OF True] assms show ?thesis
    by (simp add: changeTemperature_def getNormalized_def getScaled_def Let_def)
next
  case False
  with assms show ?thesis
    by (simp add: changeTemperature_def getNormalized_def getScaled_def Let_def)
qed

lemma update_formula [simp]: "formula (update cv p) = formula p"
  by (simp add: update_def Let_def split: prod.splits)

lemma update_radius [simp]: "radius (update cv p) = radius p"
  by (simp add: update_def Let_def split: prod.splits)

lemma update_Active [simp]: "state p = Active \<Longrightarrow> state (update cv p) = Active"
  by (simp add: update_def Let_def split: prod.splits)

lemma update_not_Removed: "state p \<noteq> Removed \<Longrightarrow> state (update cv p) \<noteq> Removed"
  by (simp add: update_def Let_def split: prod.splits)

lemma getDist_less_iff:
  "0 \<le> d \<Longrightarrow> getDist p q < d \<longleftrightarrow> (x p - x q)\<^sup>2 + (y p - y q)\<^sup>2 < d\<^sup>2"
proof -
  assume d: "0 \<le> d"
  then have "d = sqrt (d\<^sup>2)" by simp
  then have "getDist p q < d \<longleftrightarrow> sqrt ((x p - x q)\<^sup>2 + (y p - y q)\<^sup>2) < sqrt (d\<^sup>2)"
    by (simp add: getDist_def)
  then show ?thesis by (simp only: real_sqrt_less_iff)
qed

subsection \<open>Boundary reflection\<close>

text \<open>
  In a container narrower than the particle the left test clamps to the radius and the
  right test then fires on the clamped value: the particle that crossed \<open>x = 0\<close> ends at
  \<open>width - radius\<close>, not at \<open>radius\<close>, with its velocity flipped twice.
\<close>

theorem update_narrow_container_counterexample:
  "x (pos wideParticle) + x (vel wideParticle) - radius wideParticle < 0 \<and>
   x (pos (update narrowCanvas wideParticle)) \<noteq> radius wideParticle \<and>
   x (vel (update narrowCanvas wideParticle)) \<noteq> - x (vel wideParticle)"
  by (simp add: update_def Let_def wideParticle_def narrowCanvas_def getCopy_def
      getAddition_def)

text \<open>
  Claim C7, amended. In a container at least one particle diameter wide and high, \<open>update\<close>
  treats the two axes independently: on each axis, a tentative position \<open>pos + vel\<close> that
  crosses the low boundary (accounting for the radius) is clamped to the radius, one that
  crosses the high boundary is clamped to the extent minus the radius, and in both cases
  the velocity component of that axis is negated; otherwise the tentative position and the
  velocity component are kept.
\<close>

theorem update_reflects_at_boundary:
  assumes "2 * radius p \<le> width cv" and "2 * radius p \<le> height cv"
  shows "x (pos (update cv p)) =
           (if x (pos p) + x (vel p) - radius p < 0 then radius p
            else if x (pos p) + x (vel p) + radius p > width cv then width cv - radius p
            else x (pos p) + x (vel p)) \<and>
         x (vel (update cv p)) =
           (if x (pos p) + x (vel p) - radius p < 0 \<or> x (pos p) + x (vel p) + radius p > width cv
            then - x (vel p) else x (vel p)) \<and>
         y (pos (update cv p)) =
           (if y (pos p) + y (vel p) - radius p < 0 then radius p
            else if y (pos p) + y (vel p) + radius p > height cv then height cv - radius p
            else y (pos p) + y (vel p)) \<and>
         y (vel (update cv p)) =
           (if y (pos p) + y (vel p) - radius p < 0 \<or> y (pos p) + y (vel p) + radius p > height cv
            then - y (vel p) else y (vel p))"
  using assms
  by (simp add: update_def Let_def getCopy_def getAddition_def split: prod.splits)

theorem update_reflects_at_boundary_witness:
  "2 * radius cornerParticle \<le> width bigCanvas \<and>
   2 * radius cornerParticle \<le> height bigCanvas \<and>
   pos (update bigCanvas cornerParticle) = \<lparr>x = 10, y = 10\<rparr> \<and>
   vel (update bigCanvas cornerParticle) = \<lparr>x = 3, y = 4\<rparr>"
proof -
  have w: "2 * radius cornerParticle \<le> width bigCanvas"
    and h: "2 * radius cornerParticle \<le> height bigCanvas"
    by (simp_all add: cornerParticle_def bigCanvas_def)
  from update_reflects_at_boundary [OF w h] w h show ?thesis
    by (simp add: cornerParticle_def bigCanvas_def Vector.equality)
qed

subsection \<open>Temperature rescaling\<close>

text \<open>
  With a new temperature of the opposite sign the speed-to-temperature ratio changes sign:
  from ratio 1 at temperature 2, the call with \<open>- 2\<close> leaves ratio \<open>- 1\<close>. With the new
  temperature 0 the particle is left at rest at temperature 0, where the ratio is no
  number at all.
\<close>

theorem changeTemperature_negative_counterexample:
  "temperature warmParticle \<noteq> 0 \<and>
   getMagnitude (vel warmParticle) / temperature warmParticle = 1 \<and>
   getMagnitude (vel (changeTemperature warmParticle (- 2))) / (- 2) \<noteq> 1 \<and>
   vel (changeTemperature warmParticle 0) = \<lparr>x = 0, y = 0\<rparr> \<and>
   temperature (changeTemperature warmParticle 0) = 0"
  by (simp add: changeTemperature_def warmParticle_def getMagnitude_def getNormalized_def
      getScaled_def Let_def)

text \<open>
  Claim C8, amended. \<open>changeTemperature\<close> leaves a particle of temperature 0 as it is. For a
  particle of any other temperature it sets the temperature to the new one and rescales the
  velocity by the factor \<open>newTemp / temperature\<close>, changing nothing else; so when the old and
  the new temperature are nonzero and of the same sign (in particular both positive) the
  ratio of speed to temperature after the call equals the ratio before it. No division
  that the call performs has a zero divisor, whatever the particle and the new temperature.
\<close>

theorem changeTemperature_rescales:
  assumes "temperature p \<noteq> 0"
  shows "changeTemperature (p\<lparr>temperature := 0\<rparr>) newTemp = p\<lparr>temperature := 0\<rparr> \<and>
         changeTemperature p newTemp =
           p\<lparr>vel := getScaled (vel p) (newTemp / temperature p), temperature := newTemp\<rparr> \<and>
         temperature (changeTemperature p newTemp) = newTemp \<and>
         (0 < temperature p * newTemp \<longrightarrow>
            getMagnitude (vel (changeTemperature p newTemp)) / newTemp =
            getMagnitude (vel p) / temperature p) \<and>
         changeTemperatureChecked p newTemp = Some (changeTemperature p newTemp) \<and>
         changeTemperatureChecked (p\<lparr>temperature := 0\<rparr>) newTemp = Some (p\<lparr>temperature := 0\<rparr>)"
proof (intro conjI impI)
  show "changeTemperature (p\<lparr>temperature := 0\<rparr>) newTemp = p\<lparr>temperature := 0\<rparr>"
    by (simp add: changeTemperature_def)
  from assms show t: "temperature (changeTemperature p newTemp) = newTemp"
    by (simp add: changeTemperature_def Let_def)
  have v: "vel (changeTemperature p newTemp) = getScaled (vel p) (newTemp / temperature p)"
    using assms by (rule changeTemperature_vel)
  from assms v show "changeTemperature p newTemp =
      p\<lparr>vel := getScaled (vel p) (newTemp / temperature p), temperature := newTemp\<rparr>"
    by (simp add: changeTemperature_def Let_def)
  show "changeTemperatureChecked p newTemp = Some (changeTemperature p newTemp)"
    by (rule changeTemperatureChecked_total)
  show "changeTemperatureChecked (p\<lparr>temperature := 0\<rparr>) newTemp = Some (p\<lparr>temperature := 0\<rparr>)"
    by (simp add: changeTemperatureChecked_def)
  assume same: "0 < temperature p * newTemp"
  then have n0: "newTemp \<noteq> 0" by auto
  from same have quot: "0 < newTemp / temperature p"
    by (auto simp add: zero_less_mult_iff zero_less_divide_iff)
  have "getMagnitude (vel (changeTemperature p newTemp)) =
      \<bar>newTemp / temperature p\<bar> * getMagnitude (vel p)"
    by (simp only: v getMagnitude_getScaled)
  also from quot have "\<bar>newTemp / temperature p\<bar> = newTemp / temperature p"
    by (simp only: abs_of_pos)
  finally have "getMagnitude (vel (changeTemperature p newTemp)) =
      newTemp / temperature p * getMagnitude (vel p)" .
  with n0 assms show "getMagnitude (vel (changeTemperature p newTemp)) / newTemp =
      getMagnitude (vel p) / temperature p"
    by (simp add: field_simps)
qed

theorem changeTemperature_rescales_witness:
  "temperature warmParticle \<noteq> 0 \<and> 0 < temperature warmParticle * 6 \<and>
   vel warmParticle = \<lparr>x = 2, y = 0\<rparr> \<and>
   vel (changeTemperature warmParticle 6) = \<lparr>x = 6, y = 0\<rparr> \<and>
   temperature (changeTemperature warmParticle 6) = 6 \<and>
   getMagnitude (vel warmParticle) / temperature warmParticle = 1 \<and>
   getMagnitude (vel (changeTemperature warmParticle 6)) / 6 = 1 \<and>
   changeTemperatureChecked warmParticle 6 = Some (changeTemperature warmParticle 6)"
proof -
  have t: "temperature warmParticle \<noteq> 0"
    by (simp add: warmParticle_def)
  have tv: "temperature warmParticle = 2" and vv: "vel warmParticle = \<lparr>x = 2, y = 0\<rparr>"
    by (simp_all add: warmParticle_def)
  have m: "getMagnitude (vel warmParticle) = 2"
    by (simp add: vv getMagnitude_def)
  have pos: "0 < temperature warmParticle * 6"
    by (simp add: tv)
  note r = changeTemperature_rescales [OF t, of 6]
  from r have e: "changeTemperature warmParticle 6 =
      warmParticle\<lparr>vel := getScaled (vel warmParticle) (6 / temperature warmParticle),
                    temperature := 6\<rparr>"
    by blast
  from r have t6: "temperature (changeTemperature warmParticle 6) = 6"
    by blast
  from r have c: "changeTemperatureChecked warmParticle 6 = Some (changeTemperature warmParticle 6)"
    by blast
  from r pos have "getMagnitude (vel (changeTemperature warmParticle 6)) / 6 =
      getMagnitude (vel warmParticle) / temperature warmParticle"
    by blast
  then have r6: "getMagnitude (vel (changeTemperature warmParticle 6)) / 6 = 1"
    by (simp add: m tv)
  have "vel (changeTemperature warmParticle 6) = getScaled \<lparr>x = 2, y = 0\<rparr> (6 / 2)"
    unfolding e by (simp add: vv tv)
  then have v6: "vel (changeTemperature warmParticle 6) = \<lparr>x = 6, y = 0\<rparr>"
    by (simp add: getScaled_def)
  have k: "getMagnitude (vel warmParticle) / temperature warmParticle = 1"
    by (simp add: m tv)
  from t pos vv v6 t6 k r6 c show ?thesis
    by (intro conjI)
qed

subsection \<open>Cooldown decay\<close>

text \<open>
  Claim C10. \<open>update\<close> does not preserve the Removed state: whenever the cooldown budget of
  a particle is at most 0, \<open>update\<close> leaves it Active with budget 0, whatever its state was,
  Removed included.
\<close>

theorem update_resurrects_removed:
  "cooldownDist p \<le> 0 \<Longrightarrow>
   state (update cv p) = Active \<and> cooldownDist (update cv p) = 0"
  by (simp add: update_def Let_def split: prod.splits)

theorem update_resurrects_removed_witness:
  "cooldownDist removedParticle \<le> 0 \<and> state removedParticle = Removed \<and>
   state (update bigCanvas removedParticle) = Active \<and>
   cooldownDist (update bigCanvas removedParticle) = 0"
proof -
  have c: "cooldownDist removedParticle \<le> 0"
    by (simp add: removedParticle_def particleAt_def)
  from update_resurrects_removed [OF c, of bigCanvas] c show ?thesis
    by (simp add: removedParticle_def)
qed

section \<open>Reaction matching\<close>

subsection \<open>What the matching loop guarantees\<close>

lemma length_filter_drop_le: "length (filter P (drop n xs)) \<le> length (filter P xs)"
proof -
  have "filter P xs = filter P (take n xs) @ filter P (drop n xs)"
    by (simp flip: filter_append)
  then show ?thesis by simp
qed

lemma stoichSatisfiable_drop:
  "stoichSatisfiable h side (drop n cands) \<Longrightarrow> stoichSatisfiable h side cands"
  unfolding stoichSatisfiable_def list_all_iff
  using length_filter_drop_le le_trans by blast

text \<open>
  A direction whose stoichiometric condition fails on the candidate list is never matched:
  the working list only shrinks, so the species that is short on the whole list is short on
  what is left of it.
\<close>

lemma consumeParticles_short:
  "\<not> stoichSatisfiable h side cands \<Longrightarrow> fst (consumeParticles h side cands acc) = None"
proof (induction side arbitrary: cands acc)
  case Nil
  then show ?case by (simp add: stoichSatisfiable_def)
next
  case (Cons m side)
  show ?case
  proof (cases "length (filter (\<lambda>r. state (h r) = Active \<and>
      formula (h r) = molFormula.formula m) cands) < molCoeff m")
    case True
    then show ?thesis by simp
  next
    case False
    with Cons.prems have "\<not> stoichSatisfiable h side cands"
      by (simp add: stoichSatisfiable_def)
    with stoichSatisfiable_drop have "\<not> stoichSatisfiable h side (drop (molCoeff m) cands)"
      by blast
    from Cons.IH [OF this] False show ?thesis by simp
  qed
qed

text \<open>
  What a successful match consumes is a prefix of the candidate list, whatever the species
  of the particles in it: consumed and remaining candidates make up the original list.
\<close>

lemma consumeParticles_prefix:
  "consumeParticles h side cands acc = (Some consumed, rest) \<Longrightarrow>
   consumed @ rest = acc @ cands \<and>
   length consumed = length acc + sum_list (map molCoeff side)"
proof (induction side arbitrary: cands acc)
  case Nil
  then show ?case by simp
next
  case (Cons m side)
  let ?n = "length (filter (\<lambda>r. state (h r) = Active \<and>
      formula (h r) = molFormula.formula m) cands)"
  from Cons.prems have enough: "molCoeff m \<le> ?n"
    by (simp split: if_splits)
  with Cons.prems have
    "consumeParticles h side (drop (molCoeff m) cands) (acc @ take (molCoeff m) cands)
       = (Some consumed, rest)"
    by simp
  from Cons.IH [OF this] enough le_trans [OF enough length_filter_le]
  show ?case by simp
qed

text \<open>
  A forward match that succeeds is committed, and the reverse direction is not looked at.
\<close>

lemma attemptReaction_forward_first:
  assumes "getFwdConsumedParticles rxn (heap s) cands = (Some fwdConsumed, rest)"
    and "getFwdProducedParticles rxn (getAvgPos (removeParticles fwdConsumed (heap s)) fwdConsumed)
           temp (s\<lparr>heap := removeParticles fwdConsumed (heap s)\<rparr>) = (produced, s2)"
  shows "attemptReaction rxn cands temp s =
           (True, rest, s2\<lparr>particleCreationQueue := particleCreationQueue s2 @ produced\<rparr>)"
  using assms by (simp add: attemptReaction_def)

text \<open>
  A rule that is not reversible never fires in reverse: when its forward match fails, the
  call reports failure and the state is what it was.
\<close>

lemma attemptReaction_irreversible:
  assumes "\<not> reversible rxn" and "fst (getFwdConsumedParticles rxn (heap s) cands) = None"
  shows "fst (attemptReaction rxn cands temp s) = False \<and>
         snd (snd (attemptReaction rxn cands temp s)) = s"
  using assms by (auto simp add: attemptReaction_def split: prod.splits option.splits)

subsection \<open>Where the code departs from the claims\<close>

text \<open>
  Claim C1 says that a non-null consumed list holds only Active particles of the required
  species, coefficient-many per species, drawn from the filtered candidates. The code does
  not meet it: the particles consumed are the first ones of the unfiltered candidate list.
  Under the rule \<open>2A \<rightleftharpoons> 2B\<close>, the reverse match on the Active candidates \<open>A, B, B\<close> (references
  0, 1, 2) consumes the \<open>A\<close> and one \<open>B\<close>, and the forward match on \<open>B, A, A\<close> (references 1,
  0, 3) consumes the \<open>B\<close> and one \<open>A\<close>.
\<close>

theorem consumed_particles_wrong_species:
  "getRevConsumedParticles rxn1 mixedHeap [0, 1, 2] = (Some [0, 1], [2]) \<and>
   formula (mixedHeap 0) = ''A'' \<and>
   map molFormula.formula (products rxn1) = [''B''] \<and>
   getFwdConsumedParticles rxn1 mixedHeap [1, 0, 3] = (Some [1, 0], [3]) \<and>
   formula (mixedHeap 1) = ''B'' \<and>
   map molFormula.formula (reactants rxn1) = [''A'']"
  by (simp add: mixedHeap_def particleAt_def rxn1_def getFwdConsumedParticles_def
      getRevConsumedParticles_def)

text \<open>
  Claim C2 says that a match in which some required species is short returns null, consumes
  nothing, changes no particle state, and that its speculative removals touch a local copy
  only, never the caller's candidate list. The code does not meet the last part: under the
  rule \<open>A + B \<rightleftharpoons> C\<close>, the forward match on two Active \<open>A\<close> (references 0 and 3) returns null,
  and the caller's list has lost its first element.
\<close>

theorem failed_match_shortens_candidates:
  "\<not> stoichSatisfiable mixedHeap (reactants rxnABC) [0, 3] \<and>
   getFwdConsumedParticles rxnABC mixedHeap [0, 3] = (None, [3])"
  by (simp add: mixedHeap_def particleAt_def rxnABC_def getFwdConsumedParticles_def
      stoichSatisfiable_def)

text \<open>
  Claim C3 says that whenever the forward and the reverse stoichiometric conditions both hold
  on the candidates, only the forward direction fires. The code does not meet it: under the
  rule \<open>A + B \<rightleftharpoons> C\<close> with the Active candidates \<open>B, A, C\<close> (references 1, 0, 4) both conditions
  hold, the forward match fails after taking the \<open>B\<close> for the species \<open>A\<close>, and the reverse
  direction fires: it removes the \<open>A\<close> and queues a new \<open>A\<close> and a new \<open>B\<close>.
\<close>

theorem reverse_fires_when_both_satisfiable:
  "stoichSatisfiable mixedHeap (reactants rxnABC) [1, 0, 4] \<and>
   stoichSatisfiable mixedHeap (products rxnABC) [1, 0, 4] \<and>
   getFwdConsumedParticles rxnABC mixedHeap [1, 0, 4] = (None, [0, 4]) \<and>
   fst (attemptReaction rxnABC [1, 0, 4] 2 mixedSim) = True \<and>
   fst (snd (attemptReaction rxnABC [1, 0, 4] 2 mixedSim)) = [4] \<and>
   map (\<lambda>r. state (heap (snd (snd (attemptReaction rxnABC [1, 0, 4] 2 mixedSim))) r)) [1, 0, 4]
     = [Active, Removed, Active] \<and>
   particleCreationQueue (snd (snd (attemptReaction rxnABC [1, 0, 4] 2 mixedSim))) = [5, 6] \<and>
   map (\<lambda>r. formula (heap (snd (snd (attemptReaction rxnABC [1, 0, 4] 2 mixedSim))) r)) [5, 6]
     = [''A'', ''B'']"
  by (simp add: mixedHeap_def particleAt_def rxnABC_def mixedSim_def stoichSatisfiable_def
      attemptReaction_def getFwdConsumedParticles_def getRevConsumedParticles_def getRevProducedParticles_def
      createParticle_def getRandFloat_def Let_def)

text \<open>
  Claim C4 says that a non-reversible rule whose forward match fails performs no reverse
  matching and leaves the candidate list as the forward attempt left it. The code does not
  meet it: the reverse match runs before the \<open>reversible\<close> flag is tested. Under the
  non-reversible rule \<open>A \<rightarrow> B\<close> with the single Active candidate \<open>B\<close> (reference 1), the
  forward match leaves the list alone, and \<open>attemptReaction\<close> returns failure with the state
  unchanged but the candidate list emptied.
\<close>

theorem irreversible_rule_runs_reverse_match:
  "reversible rxnIrr = False \<and>
   getFwdConsumedParticles rxnIrr mixedHeap [1] = (None, [1]) \<and>
   attemptReaction rxnIrr [1] 2 mixedSim = (False, [], mixedSim)"
  by (simp add: mixedHeap_def particleAt_def rxnIrr_def mixedSim_def attemptReaction_def
      getFwdConsumedParticles_def getRevConsumedParticles_def)

section \<open>The tick driver\<close>

text \<open>
  Claim C9. While the pause flag is set, any number of consecutive calls of \<open>updateFrame\<close>
  returns the state it was given: the live collection, the creation queue and the store
  (every particle's position, velocity, state and cooldown budget) are what they were.
\<close>

theorem updateFrame_paused_frozen:
  "containerPaused s \<Longrightarrow> (updateFrame ^^ n) s = s"
  by (induction n) (simp_all add: updateFrame_def)

theorem updateFrame_paused_frozen_witness:
  "containerPaused pausedSim \<and> (updateFrame ^^ 3) pausedSim = pausedSim"
proof -
  have p: "containerPaused pausedSim"
    by (simp add: pausedSim_def)
  from updateFrame_paused_frozen [OF p, of 3] p show ?thesis
    by simp
qed


subsection \<open>The scenario \<open>2A \<rightleftharpoons> 2B\<close>\<close>

lemmas eval_defs = updateFrame_def flushQueue_def sweepParticles_def checkCollisions_def
  availableParticles_def attemptReaction_def getFwdConsumedParticles_def
  getRevConsumedParticles_def getFwdProducedParticles_def getRevProducedParticles_def
  createParticle_def getRandFloat_def update_def getCopy_def getAddition_def
  getMagnitude_def getAvgPos_def getParticleColor_def formulaColorMap_def
  RADIUS_def COOLDOWN_DIST_def MAX_SPEED_SCALER_def Let_def numeral_2_eq_2
  particleAt_def rxn1_def bigCanvas_def twoASim_def

text \<open>
  The particles move before collisions are looked for. Two Active \<open>A\<close> at the same place
  with velocities \<open>(20, 0)\<close> and \<open>(- 20, 0)\<close> are 40 apart after the update, more than the sum
  of their radii: nothing reacts, both stay Active and the queue stays empty.
\<close>

theorem tick_2A_fast_counterexample:
  "particleList fastSim = [0, 1] \<and> particleCreationQueue fastSim = [] \<and>
   reactionList fastSim = [rxn1] \<and> containerPaused fastSim = False \<and>
   pos (heap fastSim 0) = pos (heap fastSim 1) \<and>
   state (heap fastSim 0) = Active \<and> state (heap fastSim 1) = Active \<and>
   formula (heap fastSim 0) = ''A'' \<and> formula (heap fastSim 1) = ''A'' \<and>
   state (heap (updateFrame fastSim) 0) = Active \<and>
   state (heap (updateFrame fastSim) 1) = Active \<and>
   particleCreationQueue (updateFrame fastSim) = []"
  by (simp add: eval_defs fastSim_def movingA_def getDist_less_iff)

text \<open>
  Claim C5, amended. With the single reversible rule \<open>2A \<rightleftharpoons> 2B\<close>, an empty creation queue,
  the pause flag off and a live collection of exactly two distinct Active \<open>A\<close> particles at
  the same position, whose positions after the physics update of the tick are still closer
  than the sum of their radii, one call of \<open>updateFrame\<close> ends with both \<open>A\<close> Removed, at the
  positions the update gave them, and exactly two new particles in the creation queue, each
  a \<open>B\<close> in Cooldown with the full budget, positioned at the centroid of the two \<open>A\<close>: the
  point whose coordinates are half the sum of theirs.
\<close>

theorem tick_2A_to_2B:
  assumes pl: "particleList s = [a1, a2]" and ne: "a1 \<noteq> a2"
    and q: "particleCreationQueue s = []" and np: "\<not> containerPaused s"
    and rl: "reactionList s = [rxn1]"
    and alloc: "a1 < nextRef s" "a2 < nextRef s"
    and A1: "formula (heap s a1) = ''A''" "state (heap s a1) = Active"
    and A2: "formula (heap s a2) = ''A''" "state (heap s a2) = Active"
    and same: "pos (heap s a1) = pos (heap s a2)"
    and near: "getDist (pos (update (canvas s) (heap s a1))) (pos (update (canvas s) (heap s a2)))
                 < radius (heap s a1) + radius (heap s a2)"
  shows "state (heap (updateFrame s) a1) = Removed \<and>
         state (heap (updateFrame s) a2) = Removed \<and>
         particleCreationQueue (updateFrame s) = [nextRef s, Suc (nextRef s)] \<and>
         formula (heap (updateFrame s) (nextRef s)) = ''B'' \<and>
         state (heap (updateFrame s) (nextRef s)) = Cooldown \<and>
         cooldownDist (heap (updateFrame s) (nextRef s)) = COOLDOWN_DIST \<and>
         formula (heap (updateFrame s) (Suc (nextRef s))) = ''B'' \<and>
         state (heap (updateFrame s) (Suc (nextRef s))) = Cooldown \<and>
         cooldownDist (heap (updateFrame s) (Suc (nextRef s))) = COOLDOWN_DIST \<and>
         pos (heap (updateFrame s) a1) = pos (update (canvas s) (heap s a1)) \<and>
         pos (heap (updateFrame s) a2) = pos (update (canvas s) (heap s a2)) \<and>
         pos (heap (updateFrame s) (nextRef s)) =
           \<lparr>x = (x (pos (heap (updateFrame s) a1)) + x (pos (heap (updateFrame s) a2))) / 2,
            y = (y (pos (heap (updateFrame s) a1)) + y (pos (heap (updateFrame s) a2))) / 2\<rparr> \<and>
         pos (heap (updateFrame s) (Suc (nextRef s))) =
           \<lparr>x = (x (pos (heap (updateFrame s) a1)) + x (pos (heap (updateFrame s) a2))) / 2,
            y = (y (pos (heap (updateFrame s) a1)) + y (pos (heap (updateFrame s) a2))) / 2\<rparr>"
proof -
  define cv where "cv = canvas s"
  define h1 where "h1 = (heap s)(a1 := update cv (heap s a1), a2 := update cv (heap s a2))"
  define s2 where "s2 = s\<lparr>particleList := [a1, a2], particleCreationQueue := [], heap := h1\<rparr>"
  have sw: "sweepParticles (flushQueue s) = s2"
    using pl q ne A1 A2
    by (simp add: sweepParticles_def flushQueue_def s2_def h1_def cv_def)
  have h1a: "state (h1 a1) = Active" "state (h1 a2) = Active"
     "formula (h1 a1) = ''A''" "formula (h1 a2) = ''A''"
    using ne A1 A2 by (simp_all add: h1_def)
  have av: "availableParticles h1 [a1, a2] a1 = [a1, a2]"
    using ne near h1a by (simp add: availableParticles_def h1_def cv_def)
  have fwd: "getFwdConsumedParticles rxn1 h1 [a1, a2] = (Some [a1, a2], [])"
    using h1a by (simp add: getFwdConsumedParticles_def rxn1_def)
  have prods: "products rxn1 = [\<lparr>molFormula.formula = ''B'', molCoeff = 2\<rparr>]"
    by (simp add: rxn1_def)
  define h2 where "h2 = removeParticles [a1, a2] h1"
  define loc where "loc = getAvgPos h2 [a1, a2]"
  have h2s: "state (h2 a1) = Removed" "state (h2 a2) = Removed"
    using ne by (simp_all add: h2_def)
  define s3 where "s3 = tryReactions [rxn1] [a1, a2] s2"
  have s3q: "particleCreationQueue s3 = [nextRef s, Suc (nextRef s)]"
    and s3l: "particleList s3 = [a1, a2]"
    and s3h1: "heap s3 a1 = h2 a1" and s3h2: "heap s3 a2 = h2 a2"
    and s3r: "reactionList s3 = [rxn1]"
    and s3n1: "formula (heap s3 (nextRef s)) = ''B''" "state (heap s3 (nextRef s)) = Cooldown"
         "pos (heap s3 (nextRef s)) = loc" "cooldownDist (heap s3 (nextRef s)) = COOLDOWN_DIST"
    and s3n2: "formula (heap s3 (Suc (nextRef s))) = ''B''" "state (heap s3 (Suc (nextRef s))) = Cooldown"
         "pos (heap s3 (Suc (nextRef s))) = loc"
         "cooldownDist (heap s3 (Suc (nextRef s))) = COOLDOWN_DIST"
    using alloc fwd rl prods
    by (simp_all add: s3_def attemptReaction_def s2_def getFwdProducedParticles_def
        numeral_2_eq_2 createParticle_def getRandFloat_def Let_def COOLDOWN_DIST_def RADIUS_def
        h2_def loc_def split: prod.splits)
  have s2f: "particleList s2 = [a1, a2]" "heap s2 = h1" "reactionList s2 = [rxn1]"
    by (simp_all add: s2_def rl)
  have "updateFrame s = collisionLoop [a1, a2] s2"
    using np sw s2f by (simp add: updateFrame_def checkCollisions_def)
  also have "\<dots> = collisionLoop [a2] s3"
    using h1a av s2f by (simp add: s3_def del: tryReactions.simps)
  also have "\<dots> = s3"
    using s3h2 h2s by simp
  finally have uf: "updateFrame s = s3" .
  have p2: "pos (h2 a1) = pos (update cv (heap s a1))" "pos (h2 a2) = pos (update cv (heap s a2))"
    using ne by (simp_all add: h2_def h1_def)
  have avg: "loc = \<lparr>x = (x (pos (h2 a1)) + x (pos (h2 a2))) / 2,
                    y = (y (pos (h2 a1)) + y (pos (h2 a2))) / 2\<rparr>"
    by (simp add: getAvgPos_def loc_def)
  show ?thesis
    by (simp add: uf s3q s3n1 s3n2 s3h1 s3h2 h2s p2 avg cv_def)
qed

theorem tick_2A_to_2B_witness:
  "particleList twoASim = [0, 1] \<and> particleCreationQueue twoASim = [] \<and>
   \<not> containerPaused twoASim \<and> reactionList twoASim = [rxn1] \<and>
   formula (heap twoASim 0) = ''A'' \<and> state (heap twoASim 0) = Active \<and>
   formula (heap twoASim 1) = ''A'' \<and> state (heap twoASim 1) = Active \<and>
   pos (heap twoASim 0) = pos (heap twoASim 1) \<and>
   state (heap (updateFrame twoASim) 0) = Removed \<and>
   state (heap (updateFrame twoASim) 1) = Removed \<and>
   pos (heap (updateFrame twoASim) 0) = \<lparr>x = 400, y = 400\<rparr> \<and>
   pos (heap (updateFrame twoASim) 1) = \<lparr>x = 400, y = 400\<rparr> \<and>
   particleCreationQueue (updateFrame twoASim) = [2, 3] \<and>
   formula (heap (updateFrame twoASim) 2) = ''B'' \<and>
   state (heap (updateFrame twoASim) 2) = Cooldown \<and>
   cooldownDist (heap (updateFrame twoASim) 2) = 20 \<and>
   pos (heap (updateFrame twoASim) 2) = \<lparr>x = 400, y = 400\<rparr> \<and>
   formula (heap (updateFrame twoASim) 3) = ''B'' \<and>
   state (heap (updateFrame twoASim) 3) = Cooldown \<and>
   cooldownDist (heap (updateFrame twoASim) 3) = 20 \<and>
   pos (heap (updateFrame twoASim) 3) = \<lparr>x = 400, y = 400\<rparr>"
proof -
  have h: "particleList twoASim = [0, 1]" "(0::nat) \<noteq> 1" "particleCreationQueue twoASim = []"
    "\<not> containerPaused twoASim" "reactionList twoASim = [rxn1]"
    "0 < nextRef twoASim" "1 < nextRef twoASim"
    "formula (heap twoASim 0) = ''A''" "state (heap twoASim 0) = Active"
    "formula (heap twoASim 1) = ''A''" "state (heap twoASim 1) = Active"
    "pos (heap twoASim 0) = pos (heap twoASim 1)"
    by (simp_all add: twoASim_def particleAt_def)
  have u: "pos (update (canvas twoASim) (heap twoASim 0)) = \<lparr>x = 400, y = 400\<rparr>"
    "pos (update (canvas twoASim) (heap twoASim 1)) = \<lparr>x = 400, y = 400\<rparr>"
    by (simp_all add: twoASim_def particleAt_def bigCanvas_def RADIUS_def update_def
        getCopy_def getAddition_def Let_def)
  have n: "getDist (pos (update (canvas twoASim) (heap twoASim 0)))
      (pos (update (canvas twoASim) (heap twoASim 1)))
      < radius (heap twoASim 0) + radius (heap twoASim 1)"
    by (simp add: u getDist_def twoASim_def particleAt_def RADIUS_def)
  have nr: "nextRef twoASim = 2"
    by (simp add: twoASim_def)
  from tick_2A_to_2B [OF h n] h u show ?thesis
    by (simp add: nr numeral_2_eq_2 numeral_3_eq_3 COOLDOWN_DIST_def RADIUS_def)
qed

subsection \<open>The creation queue\<close>

lemma grows_refl: "grows s s []"
  by (simp add: grows_def)

lemma grows_trans: "grows s s1 rs1 \<Longrightarrow> grows s1 s2 rs2 \<Longrightarrow> grows s s2 (rs1 @ rs2)"
  unfolding grows_def by (auto simp: less_le_trans) 

lemma grows_createParticle:
  "createParticle f loc temp COOLDOWN_DIST s = (r, s') \<Longrightarrow> grows s s' [r]"
  by (auto simp add: createParticle_def getRandFloat_def Let_def grows_def COOLDOWN_DIST_def RADIUS_def)

lemma grows_createParticles:
  "createParticles n f loc temp s = (rs, s') \<Longrightarrow> grows s s' rs"
proof (induction n arbitrary: s rs s')
  case 0
  then show ?case by (simp add: grows_refl)
next
  case (Suc n)
  obtain r s1 where c: "createParticle f loc temp COOLDOWN_DIST s = (r, s1)"
    by (cases "createParticle f loc temp COOLDOWN_DIST s")
  obtain rs' s2 where cs: "createParticles n f loc temp s1 = (rs', s2)"
    by (cases "createParticles n f loc temp s1")
  from Suc.prems c cs have eq: "rs = [r] @ rs'" "s' = s2" by simp_all
  from grows_trans [OF grows_createParticle [OF c] Suc.IH [OF cs]] eq show ?case by simp
qed

lemma grows_produceParticles:
  "produceParticles ms loc temp s = (rs, s') \<Longrightarrow> grows s s' rs"
proof (induction ms arbitrary: s rs s')
  case Nil
  then show ?case by (simp add: grows_refl)
next
  case (Cons m ms)
  obtain rs1 s1 where c: "createParticles (molCoeff m) (molFormula.formula m) loc temp s = (rs1, s1)"
    by (cases "createParticles (molCoeff m) (molFormula.formula m) loc temp s")
  obtain rs2 s2 where cs: "produceParticles ms loc temp s1 = (rs2, s2)"
    by (cases "produceParticles ms loc temp s1")
  from Cons.prems c cs have eq: "rs = rs1 @ rs2" "s' = s2" by simp_all
  from grows_trans [OF grows_createParticles [OF c] Cons.IH [OF cs]] eq show ?case by simp
qed

lemma consumeParticles_subset:
  "consumeParticles h ms cands acc = (res, rest) \<Longrightarrow>
   set rest \<subseteq> set cands \<and> (\<forall>c. res = Some c \<longrightarrow> set c \<subseteq> set acc \<union> set cands)"
proof (induction ms arbitrary: cands acc)
  case Nil
  then show ?case by auto
next
  case (Cons m ms)
  show ?case
  proof (cases "length (filter (\<lambda>r. state (h r) = Active \<and> formula (h r) = molFormula.formula m) cands) < molCoeff m")
    case True
    with Cons.prems show ?thesis by simp
  next
    case False
    with Cons.prems have "consumeParticles h ms (drop (molCoeff m) cands) (acc @ take (molCoeff m) cands) = (res, rest)"
      by simp
    from Cons.IH [OF this] show ?thesis
      using set_drop_subset [of "molCoeff m" cands] set_take_subset [of "molCoeff m" cands]
      by auto blast
  qed
qed

lemma removeParticles_other: "r \<notin> set rs \<Longrightarrow> removeParticles rs h r = h r"
  by (induction rs arbitrary: h) auto


lemma commit_inv:
  assumes inv: "tickInv n0 s" and c: "\<forall>r\<in>set consumed. r < n0"
    and p: "produceParticles side loc temp (s\<lparr>heap := removeParticles consumed (heap s)\<rparr>) = (produced, s2)"
  shows "tickInv n0 (s2\<lparr>particleCreationQueue := particleCreationQueue s2 @ produced\<rparr>)"
    and "particleList s2 = particleList s" and "reactionList s2 = reactionList s"
    and "containerTemperature s2 = containerTemperature s"
proof -
  let ?s1 = "s\<lparr>heap := removeParticles consumed (heap s)\<rparr>"
  from grows_produceParticles [OF p] have g: "grows ?s1 s2 produced" .
  from g show "particleList s2 = particleList s" "reactionList s2 = reactionList s"
    "containerTemperature s2 = containerTemperature s"
    by (simp_all add: grows_def)
  have old: "heap s2 r = heap s r" if "r \<in> set (particleCreationQueue s)" for r
  proof -
    from inv that have r: "n0 \<le> r" "r < nextRef s" by (auto simp: tickInv_def)
    with c have "r \<notin> set consumed" by auto
    then have "removeParticles consumed (heap s) r = heap s r" by (rule removeParticles_other)
    with g r show ?thesis by (simp add: grows_def)
  qed
  from g have n: "nextRef s \<le> nextRef s2" and q: "particleCreationQueue s2 = particleCreationQueue s"
    and l: "particleList s2 = particleList s"
    and new: "\<And>r. r \<in> set produced \<Longrightarrow> nextRef s \<le> r \<and> r < nextRef s2 \<and>
        state (heap s2 r) = Cooldown \<and> cooldownDist (heap s2 r) = COOLDOWN_DIST"
    by (simp_all add: grows_def)
  from inv have n0: "n0 \<le> nextRef s" and pl: "\<forall>r\<in>set (particleList s). r < n0"
    and oq: "\<And>r. r \<in> set (particleCreationQueue s) \<Longrightarrow> n0 \<le> r \<and> r < nextRef s \<and>
        state (heap s r) = Cooldown \<and> cooldownDist (heap s r) = COOLDOWN_DIST"
    by (simp_all add: tickInv_def)
  show "tickInv n0 (s2\<lparr>particleCreationQueue := particleCreationQueue s2 @ produced\<rparr>)"
    unfolding tickInv_def
  proof (intro conjI ballI)
    show "n0 \<le> nextRef (s2\<lparr>particleCreationQueue := particleCreationQueue s2 @ produced\<rparr>)"
      using n0 n by simp
    fix r assume "r \<in> set (particleList (s2\<lparr>particleCreationQueue := particleCreationQueue s2 @ produced\<rparr>))"
    with l pl show "r < n0" by simp
  next
    fix r assume "r \<in> set (particleCreationQueue (s2\<lparr>particleCreationQueue := particleCreationQueue s2 @ produced\<rparr>))"
    then consider "r \<in> set (particleCreationQueue s)" | "r \<in> set produced"
      using q by auto
    then have "n0 \<le> r \<and> r < nextRef s2 \<and> state (heap s2 r) = Cooldown \<and>
        cooldownDist (heap s2 r) = COOLDOWN_DIST"
    proof cases
      case 1
      with oq [OF 1] old [OF 1] n show ?thesis by simp
    next
      case 2
      with new [OF 2] n0 show ?thesis by simp
    qed
    then show "n0 \<le> r" 
      "r < nextRef (s2\<lparr>particleCreationQueue := particleCreationQueue s2 @ produced\<rparr>)"
      "state (heap (s2\<lparr>particleCreationQueue := particleCreationQueue s2 @ produced\<rparr>) r) = Cooldown"
      "cooldownDist (heap (s2\<lparr>particleCreationQueue := particleCreationQueue s2 @ produced\<rparr>) r) = COOLDOWN_DIST"
      by simp_all
  qed
qed

lemma attemptReaction_inv:
  assumes inv: "tickInv n0 s" and c: "\<forall>r\<in>set cands. r < n0"
    and a: "attemptReaction rxn cands temp s = (ok, cands', s')"
  shows "tickInv n0 s' \<and> particleList s' = particleList s \<and> reactionList s' = reactionList s \<and>
         containerTemperature s' = containerTemperature s \<and> (\<forall>r\<in>set cands'. r < n0)"
proof -
  obtain fres c1 where f: "getFwdConsumedParticles rxn (heap s) cands = (fres, c1)"
    by (cases "getFwdConsumedParticles rxn (heap s) cands")
  from consumeParticles_subset [OF f [unfolded getFwdConsumedParticles_def]] c
  have c1: "\<forall>r\<in>set c1. r < n0" and fc: "\<And>x. fres = Some x \<Longrightarrow> \<forall>r\<in>set x. r < n0"
    by auto
  show ?thesis
  proof (cases fres)
    case (Some consumed)
    obtain produced s2 where p: "produceParticles (products rxn) (getAvgPos (removeParticles consumed (heap s)) consumed) temp
        (s\<lparr>heap := removeParticles consumed (heap s)\<rparr>) = (produced, s2)"
      by (cases "produceParticles (products rxn) (getAvgPos (removeParticles consumed (heap s)) consumed) temp
        (s\<lparr>heap := removeParticles consumed (heap s)\<rparr>)")
    from a f Some p have eq: "cands' = c1" "s' = s2\<lparr>particleCreationQueue := particleCreationQueue s2 @ produced\<rparr>"
      by (simp_all add: attemptReaction_def getFwdProducedParticles_def)
    from commit_inv [OF inv fc [OF Some] p] c1 eq show ?thesis by simp
  next
    case None
    obtain rres c2 where r: "getRevConsumedParticles rxn (heap s) c1 = (rres, c2)"
      by (cases "getRevConsumedParticles rxn (heap s) c1")
    from consumeParticles_subset [OF r [unfolded getRevConsumedParticles_def]] c1
    have c2: "\<forall>r\<in>set c2. r < n0" and rc: "\<And>x. rres = Some x \<Longrightarrow> \<forall>r\<in>set x. r < n0"
      by auto
    show ?thesis
    proof (cases "reversible rxn \<and> rres \<noteq> None")
      case True
      then obtain consumed where Some: "rres = Some consumed" by auto
      obtain produced s2 where p: "produceParticles (reactants rxn) (getAvgPos (removeParticles consumed (heap s)) consumed) temp
          (s\<lparr>heap := removeParticles consumed (heap s)\<rparr>) = (produced, s2)"
        by (cases "produceParticles (reactants rxn) (getAvgPos (removeParticles consumed (heap s)) consumed) temp
          (s\<lparr>heap := removeParticles consumed (heap s)\<rparr>)")
      from a f None r Some True p have eq: "cands' = c2" "s' = s2\<lparr>particleCreationQueue := particleCreationQueue s2 @ produced\<rparr>"
        by (simp_all add: attemptReaction_def getRevProducedParticles_def)
      from commit_inv [OF inv rc [OF Some] p] c2 eq show ?thesis by simp
    next
      case False
      with a f None r have "cands' = c2" "s' = s"
        by (auto simp add: attemptReaction_def split: option.splits)
      with inv c2 show ?thesis by simp
    qed
  qed
qed

lemma tryReactions_inv:
  "tickInv n0 s \<Longrightarrow> \<forall>r\<in>set cands. r < n0 \<Longrightarrow>
   tickInv n0 (tryReactions rxns cands s) \<and>
   particleList (tryReactions rxns cands s) = particleList s \<and>
   reactionList (tryReactions rxns cands s) = reactionList s"
proof (induction rxns arbitrary: cands s)
  case Nil
  then show ?case by simp
next
  case (Cons rxn rxns)
  obtain ok cands' s' where a: "attemptReaction rxn cands (containerTemperature s) s = (ok, cands', s')"
    by (cases "attemptReaction rxn cands (containerTemperature s) s")
  from attemptReaction_inv [OF Cons.prems a]
  have i: "tickInv n0 s'" "particleList s' = particleList s" "reactionList s' = reactionList s"
    "\<forall>r\<in>set cands'. r < n0" by simp_all
  show ?case
  proof (cases ok)
    case True
    with a i show ?thesis by simp
  next
    case False
    with a i Cons.IH [OF i(1) i(4)] show ?thesis by simp
  qed
qed

lemma collisionLoop_inv:
  "tickInv n0 s \<Longrightarrow> \<forall>r\<in>set l. r < n0 \<Longrightarrow>
   tickInv n0 (collisionLoop l s) \<and> particleList (collisionLoop l s) = particleList s"
proof (induction l arbitrary: s)
  case Nil
  then show ?case by simp
next
  case (Cons p1 l)
  show ?case
  proof (cases "state (heap s p1) \<noteq> Active")
    case True
    with Cons show ?thesis by simp
  next
    case False
    let ?av = "availableParticles (heap s) (particleList s) p1"
    let ?s' = "tryReactions (reactionList s) ?av s"
    from Cons.prems have "\<forall>r\<in>set ?av. r < n0"
      by (auto simp add: availableParticles_def tickInv_def)
    from tryReactions_inv [OF Cons.prems(1) this, of "reactionList s"]
    have i: "tickInv n0 ?s'" "particleList ?s' = particleList s" by simp_all
    from Cons.IH [OF i(1)] Cons.prems(2) i(2) False show ?thesis by simp
  qed
qed

lemma sweep_list:
  "fst (sweep cv l h) = filter (\<lambda>r. state (h r) \<noteq> Removed) l"
proof (induction l arbitrary: h)
  case Nil
  then show ?case by simp
next
  case (Cons r l)
  show ?case
  proof (cases "state (h r) = Removed")
    case True
    with Cons show ?thesis by simp
  next
    case False
    let ?h = "h(r := update cv (h r))"
    have "(state (?h r') \<noteq> Removed) = (state (h r') \<noteq> Removed)" for r'
      using False update_not_Removed [of "h r" cv] by simp
    then have "filter (\<lambda>r'. state (?h r') \<noteq> Removed) l =
        filter (\<lambda>r'. state (h r') \<noteq> Removed) l"
      by (simp only:)
    with Cons [of ?h] have "fst (sweep cv l ?h) = filter (\<lambda>r'. state (h r') \<noteq> Removed) l"
      by (simp only:)
    with False show ?thesis
      by (simp add: split_def Let_def)
  qed
qed


text \<open>
  Claim C6. In a tick that is not paused, the queue is merged into the live collection and
  cleared first. The live collection at the end of the tick is exactly what was live or
  queued before it, less the particles found Removed by the sweep. Whatever the queue holds
  at the end of the tick was created during the tick: it is not in the live collection
  that the sweep, the neighbor sets and the reaction attempts of the tick worked on, and it
  is still as it was created, in Cooldown with the full budget. The references of the end
  state are allocated again, so the same holds of the next tick, which is the one that
  merges these particles into the live collection.
\<close>

theorem queued_products_not_live_this_tick:
  assumes np: "\<not> containerPaused s"
    and wf: "\<forall>r\<in>set (particleList s @ particleCreationQueue s). r < nextRef s"
  shows "particleList (flushQueue s) = particleList s @ particleCreationQueue s \<and>
         particleCreationQueue (flushQueue s) = [] \<and>
         particleList (updateFrame s) =
           filter (\<lambda>r. state (heap s r) \<noteq> Removed) (particleList s @ particleCreationQueue s) \<and>
         (\<forall>r\<in>set (particleCreationQueue (updateFrame s)).
            nextRef s \<le> r \<and> r \<notin> set (particleList (updateFrame s)) \<and>
            state (heap (updateFrame s) r) = Cooldown \<and>
            cooldownDist (heap (updateFrame s) r) = COOLDOWN_DIST) \<and>
         (\<forall>r\<in>set (particleList (updateFrame s) @ particleCreationQueue (updateFrame s)).
            r < nextRef (updateFrame s))"
proof -
  let ?s2 = "sweepParticles (flushQueue s)"
  have l2: "particleList ?s2 =
      filter (\<lambda>r. state (heap s r) \<noteq> Removed) (particleList s @ particleCreationQueue s)"
    using sweep_list [of "canvas s" "particleList s @ particleCreationQueue s" "heap s"]
    by (simp add: sweepParticles_def flushQueue_def split_def Let_def)
  have q2: "particleCreationQueue ?s2 = []" and n2: "nextRef ?s2 = nextRef s"
    by (simp_all add: sweepParticles_def flushQueue_def split_def Let_def)
  from wf l2 have lt: "\<forall>r\<in>set (particleList ?s2). r < nextRef s" by auto
  with q2 n2 have inv: "tickInv (nextRef s) ?s2" by (simp add: tickInv_def)
  from collisionLoop_inv [OF inv lt]
  have i: "tickInv (nextRef s) (updateFrame s)" and l: "particleList (updateFrame s) = particleList ?s2"
    using np by (simp_all add: updateFrame_def checkCollisions_def)
  from i have n: "nextRef s \<le> nextRef (updateFrame s)"
    and q: "\<And>r. r \<in> set (particleCreationQueue (updateFrame s)) \<Longrightarrow>
        nextRef s \<le> r \<and> r < nextRef (updateFrame s) \<and>
        state (heap (updateFrame s) r) = Cooldown \<and>
        cooldownDist (heap (updateFrame s) r) = COOLDOWN_DIST"
    by (simp_all add: tickInv_def)
  from lt l have old: "\<And>r. r \<in> set (particleList (updateFrame s)) \<Longrightarrow> r < nextRef s"
    by simp
  have fresh: "r \<notin> set (particleList (updateFrame s))"
    if "r \<in> set (particleCreationQueue (updateFrame s))" for r
    using q [OF that] old [of r] by auto
  have bound: "r < nextRef (updateFrame s)"
    if "r \<in> set (particleList (updateFrame s) @ particleCreationQueue (updateFrame s))" for r
    using that q [of r] old [of r] n by auto
  show ?thesis
  proof (intro conjI ballI)
    show "particleList (flushQueue s) = particleList s @ particleCreationQueue s"
      "particleCreationQueue (flushQueue s) = []"
      by (simp_all add: flushQueue_def)
    show "particleList (updateFrame s) =
        filter (\<lambda>r. state (heap s r) \<noteq> Removed) (particleList s @ particleCreationQueue s)"
      using l l2 by simp
  next
    fix r assume r: "r \<in> set (particleCreationQueue (updateFrame s))"
    from q [OF r] fresh [OF r]
    show "nextRef s \<le> r" "r \<notin> set (particleList (updateFrame s))"
      "state (heap (updateFrame s) r) = Cooldown"
      "cooldownDist (heap (updateFrame s) r) = COOLDOWN_DIST"
      by simp_all
  next
    fix r assume "r \<in> set (particleList (updateFrame s) @ particleCreationQueue (updateFrame s))"
    then show "r < nextRef (updateFrame s)" by (rule bound)
  qed
qed


theorem queued_products_not_live_this_tick_witness:
  "\<not> containerPaused queuedSim \<and>
   particleList queuedSim = [0] \<and> particleCreationQueue queuedSim = [1] \<and>
   nextRef queuedSim = 2 \<and>
   particleList (updateFrame queuedSim) = [0, 1] \<and>
   particleCreationQueue (updateFrame queuedSim) = [2, 3] \<and>
   state (heap (updateFrame queuedSim) 2) = Cooldown \<and>
   state (heap (updateFrame queuedSim) 3) = Cooldown \<and>
   cooldownDist (heap (updateFrame queuedSim) 2) = COOLDOWN_DIST \<and>
   cooldownDist (heap (updateFrame queuedSim) 3) = COOLDOWN_DIST \<and>
   nextRef (updateFrame queuedSim) = 4"
proof -
  have np: "\<not> containerPaused queuedSim"
    by (simp add: queuedSim_def twoASim_def)
  have wf: "\<forall>r\<in>set (particleList queuedSim @ particleCreationQueue queuedSim).
      r < nextRef queuedSim"
    by (simp add: queuedSim_def twoASim_def)
  have q: "particleCreationQueue (updateFrame queuedSim) = [2, 3]"
    and n: "nextRef (updateFrame queuedSim) = 4"
    by (simp_all add: eval_defs queuedSim_def getDist_def)
  from queued_products_not_live_this_tick [OF np wf] q n show ?thesis
    by (simp add: queuedSim_def twoASim_def particleAt_def)
qed

end
